theory Spec2Isabelle
  imports Complex_Main "HOL-Library.Word"
begin

section \<open>JavaScript numbers and values\<close>

text \<open>
  A JavaScript number is an IEEE double: a finite value, one of the two infinities, or
  NaN. The finite values are modelled by the rationals they denote (the two zeros are one
  value, and arithmetic on the finite values is exact: the quantities of this development
  are pose indices, sample counts and clock readings, far from the range where a double
  rounds an increment away or overflows).
\<close>

datatype jsnum = NaN | NegInf | Fin rat | PosInf

definition isNaN :: "jsnum \<Rightarrow> bool" where
  "isNaN x = (x = NaN)"

text \<open>\<open>x < y\<close>: false as soon as one side is NaN.\<close>

fun js_lt :: "jsnum \<Rightarrow> jsnum \<Rightarrow> bool" where
  "js_lt NaN _ = False"
| "js_lt _ NaN = False"
| "js_lt PosInf _ = False"
| "js_lt _ NegInf = False"
| "js_lt NegInf _ = True"
| "js_lt _ PosInf = True"
| "js_lt (Fin a) (Fin b) = (a < b)"

text \<open>\<open>x >= y\<close>: false as soon as one side is NaN, otherwise the negation of \<open>x < y\<close>.\<close>

definition js_ge :: "jsnum \<Rightarrow> jsnum \<Rightarrow> bool" where
  "js_ge x y = (\<not> isNaN x \<and> \<not> isNaN y \<and> \<not> js_lt x y)"

text \<open>\<open>x === y\<close> on numbers: NaN equals nothing.\<close>

definition js_eq :: "jsnum \<Rightarrow> jsnum \<Rightarrow> bool" where
  "js_eq x y = (\<not> isNaN x \<and> x = y)"

fun js_add :: "jsnum \<Rightarrow> jsnum \<Rightarrow> jsnum" where
  "js_add NaN _ = NaN"
| "js_add _ NaN = NaN"
| "js_add PosInf NegInf = NaN"
| "js_add NegInf PosInf = NaN"
| "js_add PosInf _ = PosInf"
| "js_add _ PosInf = PosInf"
| "js_add NegInf _ = NegInf"
| "js_add _ NegInf = NegInf"
| "js_add (Fin a) (Fin b) = Fin (a + b)"

fun js_neg :: "jsnum \<Rightarrow> jsnum" where
  "js_neg NaN = NaN"
| "js_neg NegInf = PosInf"
| "js_neg PosInf = NegInf"
| "js_neg (Fin a) = Fin (- a)"

definition js_sub :: "jsnum \<Rightarrow> jsnum \<Rightarrow> jsnum" where
  "js_sub x y = js_add x (js_neg y)"

definition Math_max :: "jsnum \<Rightarrow> jsnum \<Rightarrow> jsnum" where
  "Math_max x y = (if isNaN x \<or> isNaN y then NaN else if js_lt x y then y else x)"

definition Math_min :: "jsnum \<Rightarrow> jsnum \<Rightarrow> jsnum" where
  "Math_min x y = (if isNaN x \<or> isNaN y then NaN else if js_lt y x then y else x)"

text \<open>
  The values an entry of a tool call's argument mapping can hold (the mapping is decoded
  from JSON; an array or an object converts to a number through its string form, so it is
  covered by \<open>VString\<close>). \<open>VUndefined\<close> is what a missing key reads as.
\<close>

datatype jsval = VUndefined | VNull | VBoolean bool | VNumber jsnum | VString string

text \<open>
  \<open>Number(v)\<close>. The conversion of a string is the platform's \<open>StringToNumber\<close>, taken
  as the parameter \<open>strnum\<close>.
\<close>

fun Number :: "(string \<Rightarrow> jsnum) \<Rightarrow> jsval \<Rightarrow> jsnum" where
  "Number strnum VUndefined = NaN"
| "Number strnum VNull = Fin 0"
| "Number strnum (VBoolean b) = (if b then Fin 1 else Fin 0)"
| "Number strnum (VNumber n) = n"
| "Number strnum (VString s) = strnum s"

section \<open>Data model (types.ts)\<close>

record pose =
  sanskrit_name :: string
  english_name :: string
  duration_seconds :: jsnum
  instructions :: string
  modification :: string
  focus :: string
  imageUrl :: "string option"
  videoUrl :: "string option"

record yogaSequence =
  sequence_title :: string
  total_duration_minutes :: jsnum
  poses :: "pose list"

section \<open>Messages of the live connection\<close>

text \<open>
  A function call of a tool-call message: identifier, name and argument mapping.
  \<open>fc.args['index']\<close> is \<open>arg fc ''index''\<close>.
\<close>

record functionCall =
  fc_id :: string
  fc_name :: string
  fc_args :: "string \<rightharpoonup> jsval"

definition arg :: "functionCall \<Rightarrow> string \<Rightarrow> jsval" where
  "arg fc k = (case fc_args fc k of None \<Rightarrow> VUndefined | Some v \<Rightarrow> v)"

text \<open>What \<open>sendToolResponse\<close> is given: \<open>{id, name, response: {result}}\<close>.\<close>

record functionResponse =
  fr_id :: string
  fr_name :: string
  fr_result :: string

text \<open>
  An inbound message, as \<open>onMessage\<close> reads it: \<open>inlineData\<close> is
  \<open>msg.serverContent?.modelTurn?.parts?.[0]?.inlineData?.data\<close> (\<open>None\<close> when the chain
  of optional accesses ends in undefined), \<open>toolCall\<close> is
  \<open>msg.toolCall\<close> with its \<open>functionCalls\<close>.
\<close>

record liveServerMessage =
  inlineData :: "string option"
  toolCall :: "functionCall list option"

section \<open>Audio helpers\<close>

type_synonym byte = "8 word"

text \<open>The exceptions the modelled code can raise.\<close>

datatype error =
  InvalidCharacterError
| RangeError
| NotSupportedError
| ApiKeyNotSet

text \<open>
  \<open>base64ToUint8Array\<close> (services/gemini). \<open>atob\<close> is the platform's decoder, a
  parameter: it returns the binary string as the list of its character codes, or
  \<open>None\<close> where it throws. The loop stores \<open>charCodeAt(i)\<close> in a \<open>Uint8Array\<close>.
\<close>

definition base64ToUint8Array :: "(string \<Rightarrow> nat list option) \<Rightarrow> string \<Rightarrow> error + byte list" where
  "base64ToUint8Array atob base64 =
     (case atob base64 of
        None \<Rightarrow> Inl InvalidCharacterError
      | Some binaryString \<Rightarrow> Inr (map (\<lambda>c. (of_nat c :: byte)) binaryString))"

text \<open>
  Storing a number in an \<open>Int16Array\<close> converts it with \<open>ToInt16\<close>: truncate towards
  zero, reduce modulo \<open>2^16\<close>, read as two's complement.
\<close>

definition trunc :: "rat \<Rightarrow> int" where
  "trunc x = (if x < 0 then \<lceil>x\<rceil> else \<lfloor>x\<rfloor>)"

definition wrap16 :: "int \<Rightarrow> int" where
  "wrap16 n = (let m = n mod 65536 in if m \<ge> 32768 then m - 65536 else m)"

definition ToInt16 :: "rat \<Rightarrow> int" where
  "ToInt16 x = wrap16 (trunc x)"

text \<open>\<open>new Int16Array(data.buffer)\<close>: the bytes read two by two, low byte first.\<close>

fun int16Array :: "byte list \<Rightarrow> int list" where
  "int16Array (lo # hi # rest) = wrap16 (uint lo + 256 * uint hi) # int16Array rest"
| "int16Array _ = []"

text \<open>\<open>new Uint8Array(int16.buffer)\<close>: each element as its two bytes, low byte first.\<close>

definition int16Bytes :: "int \<Rightarrow> byte list" where
  "int16Bytes v = (let u = v mod 65536 in [of_int (u mod 256), of_int (u div 256)])"

record audioBuffer =
  channelData :: "rat list"
  sampleRate :: nat

text \<open>\<open>buffer.duration\<close>: the length in sample frames over the sample rate.\<close>

definition duration :: "audioBuffer \<Rightarrow> rat" where
  "duration b = of_nat (length (channelData b)) / of_nat (sampleRate b)"

text \<open>
  \<open>decodeAudioData\<close> (LiveYogaSession). The \<open>Int16Array\<close> constructor throws a
  RangeError on a buffer of odd byte length, and \<open>createBuffer\<close> a NotSupportedError
  on a length of zero frames.
\<close>

definition decodeAudioData :: "byte list \<Rightarrow> nat \<Rightarrow> error + audioBuffer" where
  "decodeAudioData data rate =
     (if odd (length data) then Inl RangeError
      else
        (let dataInt16 = int16Array data;
             frameCount = length dataInt16
         in if frameCount = 0 then Inl NotSupportedError
            else Inr \<lparr>channelData = map (\<lambda>v. of_int v / 32768) dataInt16, sampleRate = rate\<rparr>))"

text \<open>
  \<open>createPcmBlob\<close> (LiveYogaSession). \<open>btoa\<close> is the platform's encoder, a parameter,
  given the binary string as the list of its character codes.
\<close>

record pcmBlob =
  blob_data :: string
  blob_mimeType :: string

definition pcmInt16 :: "rat list \<Rightarrow> int list" where
  "pcmInt16 samples = map (\<lambda>x. ToInt16 (x * 32768)) samples"

definition createPcmBlob :: "(nat list \<Rightarrow> string) \<Rightarrow> rat list \<Rightarrow> pcmBlob" where
  "createPcmBlob btoa samples =
     (let int16 = pcmInt16 samples;
          bytes = concat (map int16Bytes int16);
          binary = map unat bytes
      in \<lparr>blob_data = btoa binary, blob_mimeType = ''audio/pcm;rate=16000''\<rparr>)"

section \<open>The live session (LiveYogaSession)\<close>

text \<open>
  A JavaScript \<open>Set\<close> of objects, in insertion order: \<open>add\<close> of a member changes
  nothing, \<open>delete\<close> removes the member, \<open>size\<close> counts the members.
\<close>

definition Set_add :: "'a \<Rightarrow> 'a list \<Rightarrow> 'a list" where
  "Set_add x xs = (if x \<in> set xs then xs else xs @ [x])"

definition Set_delete :: "'a \<Rightarrow> 'a list \<Rightarrow> 'a list" where
  "Set_delete x xs = removeAll x xs"

definition Set_size :: "'a list \<Rightarrow> nat" where
  "Set_size xs = length xs"

text \<open>
  The state \<open>onMessage\<close> and the navigation buttons work on: the React state
  \<open>currentPoseIndex\<close> and \<open>isSpeaking\<close>, the refs \<open>nextStartTimeRef\<close> and
  \<open>sourcesRef\<close>, and what the component has done to the outside so far:
  \<open>created\<close> counts the \<open>AudioBufferSourceNode\<close>s made by
  \<open>ctx.createBufferSource()\<close> (a node is identified by its number),
  \<open>started\<close> lists the calls \<open>source.start(when)\<close> as (node, when, duration of
  the node's buffer), \<open>toolResponses\<close> lists what was handed to
  \<open>session.sendToolResponse\<close>.
\<close>

record session =
  currentPoseIndex :: jsnum
  isSpeaking :: bool
  nextStartTimeRef :: rat
  sourcesRef :: "nat list"
  created :: nat
  started :: "(nat \<times> rat \<times> rat) list"
  toolResponses :: "functionResponse list"

text \<open>\<open>useState(0)\<close>, \<open>useState(false)\<close>, \<open>useRef(0)\<close>, \<open>useRef(new Set())\<close>.\<close>

definition initialSession :: session where
  "initialSession =
     \<lparr>currentPoseIndex = Fin 0, isSpeaking = False, nextStartTimeRef = 0, sourcesRef = [],
      created = 0, started = [], toolResponses = []\<rparr>"

text \<open>
  The expression \<open>decodeAudioData(base64ToUint8Array(audioData), ctx)\<close>: the sample
  rate is the default of \<open>decodeAudioData\<close>, 24000.
\<close>

definition decodeInline :: "(string \<Rightarrow> nat list option) \<Rightarrow> string \<Rightarrow> error + audioBuffer" where
  "decodeInline atob audioData =
     (case base64ToUint8Array atob audioData of
        Inl e \<Rightarrow> Inl e
      | Inr bytes \<Rightarrow> decodeAudioData bytes 24000)"

text \<open>
  \<open>onMessage\<close>, first half (Handle Audio Output). \<open>now\<close> is the reading of
  \<open>ctx.currentTime\<close>. \<open>if (audioData)\<close> is false for undefined and for the empty
  string. An exception of the decoding leaves the function at that point: the result
  carries it, with the state as it was then. \<open>decodeAudioData\<close> has no suspension
  point of its own, so the code after \<open>await\<close> runs before the event loop delivers
  any other event: the call is one step of the session.
\<close>

definition handleAudioOutput ::
  "(string \<Rightarrow> nat list option) \<Rightarrow> rat \<Rightarrow> liveServerMessage \<Rightarrow> session \<Rightarrow> error option \<times> session" where
  "handleAudioOutput atob now msg s =
     (case inlineData msg of
        None \<Rightarrow> (None, s)
      | Some audioData \<Rightarrow>
          if audioData = [] then (None, s)
          else
            (let s1 = s\<lparr>isSpeaking := True\<rparr>;
                 s2 = s1\<lparr>nextStartTimeRef := max (nextStartTimeRef s1) now\<rparr>
             in case decodeInline atob audioData of
                  Inl e \<Rightarrow> (Some e, s2)
                | Inr buffer \<Rightarrow>
                    (let source = created s2;
                         s3 = s2\<lparr>created := Suc (created s2)\<rparr>;
                         s4 = s3\<lparr>started := started s3 @ [(source, nextStartTimeRef s3, duration buffer)]\<rparr>;
                         s5 = s4\<lparr>nextStartTimeRef := nextStartTimeRef s4 + duration buffer\<rparr>
                     in (None, s5\<lparr>sourcesRef := Set_add source (sourcesRef s5)\<rparr>))))"

text \<open>The \<open>ended\<close> listener of a source node.\<close>

definition onEnded :: "nat \<Rightarrow> session \<Rightarrow> session" where
  "onEnded source s =
     (let s1 = s\<lparr>sourcesRef := Set_delete source (sourcesRef s)\<rparr>
      in if Set_size (sourcesRef s1) = 0 then s1\<lparr>isSpeaking := False\<rparr> else s1)"

text \<open>
  \<open>onMessage\<close>, second half (Handle Tool Calls): the body of the loop over
  \<open>toolCall.functionCalls\<close>, and the loop.
\<close>

definition handleFunctionCall ::
  "(string \<Rightarrow> jsnum) \<Rightarrow> pose list \<Rightarrow> functionCall \<Rightarrow> session \<Rightarrow> session" where
  "handleFunctionCall strnum ps fc s =
     (if fc_name fc = ''setPoseIndex'' then
        (let newIndex = Number strnum (arg fc ''index'')
         in if \<not> isNaN newIndex \<and> js_ge newIndex (Fin 0) \<and> js_lt newIndex (Fin (of_nat (length ps)))
            then
              (let s1 = s\<lparr>currentPoseIndex := newIndex\<rparr>
               in s1\<lparr>toolResponses := toolResponses s1 @
                    [\<lparr>fr_id = fc_id fc, fr_name = fc_name fc, fr_result = ''OK, pose updated.''\<rparr>]\<rparr>)
            else
              s\<lparr>toolResponses := toolResponses s @
                    [\<lparr>fr_id = fc_id fc, fr_name = fc_name fc,
                      fr_result = ''Error: Pose index out of bounds.''\<rparr>]\<rparr>)
      else s)"

fun forFunctionCalls ::
  "(string \<Rightarrow> jsnum) \<Rightarrow> pose list \<Rightarrow> functionCall list \<Rightarrow> session \<Rightarrow> session" where
  "forFunctionCalls strnum ps [] s = s"
| "forFunctionCalls strnum ps (fc # fcs) s =
     forFunctionCalls strnum ps fcs (handleFunctionCall strnum ps fc s)"

definition handleToolCalls ::
  "(string \<Rightarrow> jsnum) \<Rightarrow> pose list \<Rightarrow> liveServerMessage \<Rightarrow> session \<Rightarrow> session" where
  "handleToolCalls strnum ps msg s =
     (case toolCall msg of
        None \<Rightarrow> s
      | Some functionCalls \<Rightarrow> forFunctionCalls strnum ps functionCalls s)"

text \<open>
  \<open>onMessage\<close>: the audio half, then the tool calls. An exception of the audio half
  ends the call, so the tool calls of that message are not reached.
\<close>

definition onMessage ::
  "(string \<Rightarrow> nat list option) \<Rightarrow> (string \<Rightarrow> jsnum) \<Rightarrow> pose list \<Rightarrow> rat \<Rightarrow> liveServerMessage
     \<Rightarrow> session \<Rightarrow> error option \<times> session" where
  "onMessage atob strnum ps now msg s =
     (case handleAudioOutput atob now msg s of
        (Some e, s1) \<Rightarrow> (Some e, s1)
      | (None, s1) \<Rightarrow> (None, handleToolCalls strnum ps msg s1))"

text \<open>
  The Prev and Next buttons: a disabled button does not call its handler; the handlers
  are \<open>prev => Math.max(0, prev - 1)\<close> and
  \<open>prev => Math.min(sequence.poses.length - 1, prev + 1)\<close>.
\<close>

definition lastIndex :: "pose list \<Rightarrow> jsnum" where
  "lastIndex ps = Fin (of_nat (length ps) - 1)"

definition clickPrev :: "session \<Rightarrow> session" where
  "clickPrev s =
     (if js_eq (currentPoseIndex s) (Fin 0) then s
      else s\<lparr>currentPoseIndex := Math_max (Fin 0) (js_sub (currentPoseIndex s) (Fin 1))\<rparr>)"

definition clickNext :: "pose list \<Rightarrow> session \<Rightarrow> session" where
  "clickNext ps s =
     (if js_eq (currentPoseIndex s) (lastIndex ps) then s
      else s\<lparr>currentPoseIndex := Math_min (lastIndex ps) (js_add (currentPoseIndex s) (Fin 1))\<rparr>)"

text \<open>
  What happens to a session, one event at a time on the single event loop: a message
  arrives (with the reading of the output clock at that moment), a source node reports
  the end of its playback, the user clicks Prev or Next.
\<close>

datatype event =
  Message rat liveServerMessage
| Ended nat
| ClickPrev
| ClickNext

fun step ::
  "(string \<Rightarrow> nat list option) \<Rightarrow> (string \<Rightarrow> jsnum) \<Rightarrow> pose list \<Rightarrow> event \<Rightarrow> session \<Rightarrow> session" where
  "step atob strnum ps (Message now msg) s = snd (onMessage atob strnum ps now msg s)"
| "step atob strnum ps (Ended source) s = onEnded source s"
| "step atob strnum ps ClickPrev s = clickPrev s"
| "step atob strnum ps ClickNext s = clickNext ps s"

fun run ::
  "(string \<Rightarrow> nat list option) \<Rightarrow> (string \<Rightarrow> jsnum) \<Rightarrow> pose list \<Rightarrow> event list \<Rightarrow> session \<Rightarrow> session" where
  "run atob strnum ps [] s = s"
| "run atob strnum ps (ev # evs) s = run atob strnum ps evs (step atob strnum ps ev s)"

section \<open>Resources of the component and their release (LiveYogaSession)\<close>

text \<open>
  The calls the component makes on the browser's media objects, in the order it makes
  them. An audio context, a script processor and an interval timer are made by the
  component and identified by a number of their own (\<open>objects\<close> counts them); the
  tracks of the media stream are numbered by \<open>getUserMedia\<close>.
\<close>

datatype effect =
  NewAudioContext nat nat
| Resume nat
| Close nat
| TrackStop nat
| CreateScriptProcessor nat nat
| Disconnect nat
| SetInterval nat nat
| ClearInterval nat

record component =
  isSessionActive :: bool
  isConnected :: bool
  status :: string
  streamRef :: "nat list option"
  audioContextRef :: "nat option"
  processorRef :: "nat option"
  frameIntervalRef :: "nat option"
  objects :: nat
  effects :: "effect list"

definition initialComponent :: component where
  "initialComponent =
     \<lparr>isSessionActive = False, isConnected = False, status = ''Ready to Start'',
      streamRef = None, audioContextRef = None, processorRef = None, frameIntervalRef = None,
      objects = 0, effects = []\<rparr>"

text \<open>
  \<open>initCamera\<close>, once \<open>getUserMedia\<close> has settled: with the tracks of the stream,
  or with \<open>None\<close> when it was refused.
\<close>

definition initCamera :: "nat list option \<Rightarrow> component \<Rightarrow> component" where
  "initCamera granted c =
     (case granted of
        Some tracks \<Rightarrow> c\<lparr>streamRef := Some tracks\<rparr>
      | None \<Rightarrow> c\<lparr>status := ''Camera access required.''\<rparr>)"

text \<open>
  \<open>handleStartSession\<close>, up to the call of \<open>connectToYogaSession\<close>, where no
  constructor throws. It is an async function that suspends twice, at
  \<open>await inputCtx.resume()\<close> and at \<open>await outputCtx.resume()\<close>, and the event loop
  can handle other events (an unmount among them) during each suspension. Its three
  parts: up to the first \<open>await\<close> (the state updates, the two contexts, the call
  \<open>inputCtx.resume()\<close>); between the two (the call \<open>outputCtx.resume()\<close>); after
  the second (\<open>audioContextRef.current = outputCtx\<close>). \<open>inputCtx\<close> and
  \<open>outputCtx\<close> are local constants of the function: the first part returns them for
  the parts that follow and for the \<open>onOpen\<close> callback, which closes over
  \<open>inputCtx\<close>, and no ref holds \<open>inputCtx\<close>.
\<close>

definition startSessionEnter :: "component \<Rightarrow> (nat \<times> nat) \<times> component" where
  "startSessionEnter c =
     (let c1 = c\<lparr>isSessionActive := True, status := ''Connecting to AI...''\<rparr>;
          inputCtx = objects c1;
          outputCtx = Suc (objects c1)
      in ((inputCtx, outputCtx),
          c1\<lparr>objects := objects c1 + 2,
             effects := effects c1 @
               [NewAudioContext inputCtx 16000, NewAudioContext outputCtx 24000, Resume inputCtx]\<rparr>))"

definition startSessionInputResumed :: "nat \<Rightarrow> component \<Rightarrow> component" where
  "startSessionInputResumed outputCtx c = c\<lparr>effects := effects c @ [Resume outputCtx]\<rparr>"

definition startSessionOutputResumed :: "nat \<Rightarrow> component \<Rightarrow> component" where
  "startSessionOutputResumed outputCtx c = c\<lparr>audioContextRef := Some outputCtx\<rparr>"

text \<open>
  \<open>handleStartSession\<close> as a whole, where no other event is handled while it is
  suspended.
\<close>

definition handleStartSession :: "component \<Rightarrow> nat \<times> component" where
  "handleStartSession c =
     (case startSessionEnter c of
        ((inputCtx, outputCtx), c1) \<Rightarrow>
          (inputCtx, startSessionOutputResumed outputCtx (startSessionInputResumed outputCtx c1)))"

text \<open>The \<open>onOpen\<close> callback: the audio input pipeline, then the frame timer.\<close>

definition onOpen :: "nat \<Rightarrow> component \<Rightarrow> component" where
  "onOpen inputCtx c =
     (let c1 = c\<lparr>isConnected := True, status := ''Connected''\<rparr>;
          c2 = (case streamRef c1 of
                  None \<Rightarrow> c1
                | Some tracks \<Rightarrow>
                    (let processor = objects c1
                     in c1\<lparr>objects := Suc (objects c1),
                           effects := effects c1 @ [CreateScriptProcessor processor inputCtx],
                           processorRef := Some processor\<rparr>));
          timer = objects c2
      in c2\<lparr>objects := Suc (objects c2),
             effects := effects c2 @ [SetInterval timer 500],
             frameIntervalRef := Some timer\<rparr>)"

text \<open>
  \<open>cleanup\<close>, the function the component runs when it unmounts: four tests of a ref,
  each followed by the release of what the ref holds. It writes no ref, so it is given
  by the calls it makes, in their order.
\<close>

definition cleanup :: "component \<Rightarrow> component" where
  "cleanup c =
     c\<lparr>effects := effects c @
         (case streamRef c of None \<Rightarrow> [] | Some tracks \<Rightarrow> map TrackStop tracks) @
         (case audioContextRef c of None \<Rightarrow> [] | Some ctx \<Rightarrow> [Close ctx]) @
         (case frameIntervalRef c of None \<Rightarrow> [] | Some timer \<Rightarrow> [ClearInterval timer]) @
         (case processorRef c of None \<Rightarrow> [] | Some processor \<Rightarrow> [Disconnect processor])\<rparr>"

section \<open>The connect handshake (services/gemini)\<close>

datatype schemaType = OBJECT | INTEGER | STRING | ARRAY

datatype modality = AUDIO | TEXT | IMAGE

record property =
  p_type :: schemaType
  p_description :: string

record schema =
  s_type :: schemaType
  s_properties :: "(string \<times> property) list"
  s_required :: "string list"

record functionDeclaration =
  fd_name :: string
  fd_description :: string
  fd_parameters :: schema

text \<open>A tool is \<open>{ functionDeclarations: [...] }\<close>.\<close>

record tool =
  functionDeclarations :: "functionDeclaration list"

record connectConfig =
  responseModalities :: "modality list"
  systemInstruction :: string
  tools :: "tool list"
  voiceName :: string

record connectRequest =
  model :: string
  config :: connectConfig

definition setPoseIndexTool :: functionDeclaration where
  "setPoseIndexTool =
     \<lparr>fd_name = ''setPoseIndex'',
      fd_description = ''Move the user to a specific pose in the sequence. Call this when the user says 'Next', 'Previous', or asks to move to a specific step.'',
      fd_parameters =
        \<lparr>s_type = OBJECT,
         s_properties =
           [(''index'', \<lparr>p_type = INTEGER, p_description = ''The 0-based index of the pose to move to.''\<rparr>)],
         s_required = [''index'']\<rparr>\<rparr>"

text \<open>\<open>`${i}`\<close> for an array index: its decimal digits.\<close>

fun dec :: "nat \<Rightarrow> string" where
  "dec n = (if n < 10 then [''0123456789'' ! n] else dec (n div 10) @ [''0123456789'' ! (n mod 10)])"

text \<open>\<open>lines.join(sep)\<close>.\<close>

fun join :: "string \<Rightarrow> string list \<Rightarrow> string" where
  "join sep [] = []"
| "join sep [l] = l"
| "join sep (l # m # ls) = l @ sep @ join sep (m # ls)"

definition newline :: string where
  "newline = [CHR 0x0A]"

text \<open>The callback of \<open>sequence.poses.map\<close>, and the map with its index.\<close>

definition poseLine :: "pose \<Rightarrow> nat \<Rightarrow> string" where
  "poseLine p i = dec i @ ''. '' @ english_name p @ ''. Mod: '' @ modification p"

definition poseLines :: "pose list \<Rightarrow> string list" where
  "poseLines ps = map (\<lambda>(i, p). poseLine p i) (enumerate 0 ps)"

text \<open>The text of the template before and after the interpolated plan, by lines.\<close>

definition promptHead :: string where
  "promptHead = join newline
     ['''',
      ''    You are a Live Yoga Instructor named \"TheraFlow AI\".'',
      ''    You are guiding a student through a therapeutic sequence.'',
      ''    '',
      ''    Sequence Plan:'',
      ''    '']"

definition promptTail :: string where
  "promptTail = join newline
     ['''',
      '''',
      ''    CRITICAL INSTRUCTIONS FOR COMPUTER VISION:'',
      ''    1. You are receiving a continuous stream of images from the user's camera.'',
      ''    2. If the user asks \"Check my form\", \"Am I doing this right?\", or \"How does this look?\", you MUST immediately analyze the latest image you received.'',
      ''    3. Provide specific, corrective feedback based on the CURRENT POSE. E.g., \"Lift your chest higher,\" or \"Keep that knee bent.\"'',
      ''    4. If the user is doing the pose correctly, give positive reinforcement.'',
      '''',
      ''    GENERAL INTERACTION:'',
      ''    - Be concise. The user is holding a pose.'',
      ''    - If they say \"Next\", use the 'setPoseIndex' tool to move forward.'',
      ''    - Keep your tone soothing but authoritative on safety.'',
      ''  '']"

definition systemPrompt :: "yogaSequence \<Rightarrow> string" where
  "systemPrompt sequence = promptHead @ join newline (poseLines (poses sequence)) @ promptTail"

text \<open>
  \<open>connectToYogaSession\<close>: what it hands to \<open>ai.live.connect\<close>, or the error it
  throws when the API key is undefined or empty.
\<close>

definition connectToYogaSession :: "string option \<Rightarrow> yogaSequence \<Rightarrow> error + connectRequest" where
  "connectToYogaSession apiKey sequence =
     (if apiKey = None \<or> apiKey = Some [] then Inl ApiKeyNotSet
      else Inr
        \<lparr>model = ''gemini-2.5-flash-native-audio-preview-09-2025'',
         config =
           \<lparr>responseModalities = [AUDIO],
            systemInstruction = systemPrompt sequence,
            tools = [\<lparr>functionDeclarations = [setPoseIndexTool]\<rparr>],
            voiceName = ''Zephyr''\<rparr>\<rparr>)"

section \<open>A reference decoder for concrete payloads\<close>

text \<open>
  The browser's \<open>atob\<close> (forgiving base64 decoding): ASCII whitespace is dropped, one
  or two padding characters are dropped from a text whose length is a multiple of four,
  a remaining length of one more than a multiple of four or a character outside the
  alphabet is an error, and the characters are read six bits each, the incomplete last
  byte dropped. The definitions above take \<open>atob\<close> as a parameter; this decoder
  supplies the concrete payloads of the examples.
\<close>

definition b64Alphabet :: string where
  "b64Alphabet = ''ABCDEFGHIJKLMNOPQRSTUVWXYZabcdefghijklmnopqrstuvwxyz0123456789+/''"

fun indexOf :: "char \<Rightarrow> string \<Rightarrow> nat \<Rightarrow> nat option" where
  "indexOf c [] n = None"
| "indexOf c (x # xs) n = (if c = x then Some n else indexOf c xs (Suc n))"

fun sextets :: "string \<Rightarrow> nat list option" where
  "sextets [] = Some []"
| "sextets (c # cs) =
     (case indexOf c b64Alphabet 0 of
        None \<Rightarrow> None
      | Some v \<Rightarrow> (case sextets cs of None \<Rightarrow> None | Some vs \<Rightarrow> Some (v # vs)))"

fun octets :: "nat list \<Rightarrow> nat list" where
  "octets (a # b # c # d # rest) =
     (let n = ((a * 64 + b) * 64 + c) * 64 + d
      in [n div 65536, (n div 256) mod 256, n mod 256] @ octets rest)"
| "octets [a, b, c] = (let n = ((a * 64 + b) * 64 + c) div 4 in [n div 256, n mod 256])"
| "octets [a, b] = [(a * 64 + b) div 16]"
| "octets _ = []"

definition stripPadding :: "string \<Rightarrow> string" where
  "stripPadding t =
     (if length t mod 4 = 0 \<and> t \<noteq> [] \<and> last t = CHR ''=''
      then (if butlast t \<noteq> [] \<and> last (butlast t) = CHR ''='' then butlast (butlast t) else butlast t)
      else t)"

definition browser_atob :: "string \<Rightarrow> nat list option" where
  "browser_atob s =
     (let t = filter (\<lambda>c. c \<notin> set [CHR 0x09, CHR 0x0A, CHR 0x0C, CHR 0x0D, CHR 0x20]) s;
          u = stripPadding t
      in if length u mod 4 = 1 then None
         else (case sextets u of None \<Rightarrow> None | Some vs \<Rightarrow> Some (octets vs)))"

section \<open>Notions used in the properties\<close>

text \<open>
  An entry of \<open>started\<close> is (node, when, duration): playback of the node runs from
  \<open>startOf\<close> to \<open>endOf\<close>. A schedule is in order when every entry ends before
  each later entry starts, so that no two playback intervals overlap.
\<close>

definition startOf :: "nat \<times> rat \<times> rat \<Rightarrow> rat" where
  "startOf c = fst (snd c)"

definition endOf :: "nat \<times> rat \<times> rat \<Rightarrow> rat" where
  "endOf c = fst (snd c) + snd (snd c)"

definition inOrder :: "(nat \<times> rat \<times> rat) list \<Rightarrow> bool" where
  "inOrder cs = (\<forall>j < length cs. \<forall>i < j. endOf (cs ! i) \<le> startOf (cs ! j))"

definition scheduleInv :: "session \<Rightarrow> bool" where
  "scheduleInv s = (inOrder (started s) \<and> (\<forall>c \<in> set (started s). endOf c \<le> nextStartTimeRef s))"

text \<open>
  Example messages: \<open>AAA=\<close> is the base64 text of two zero bytes (one sample frame),
  \<open>AAAAAAAA\<close> of six zero bytes (three frames), and \<open>AA==\<close> of a single byte,
  which is no whole number of 16-bit samples.
\<close>

definition oneFrame :: liveServerMessage where
  "oneFrame = \<lparr>inlineData = Some ''AAA='', toolCall = None\<rparr>"

definition threeFrames :: liveServerMessage where
  "threeFrames = \<lparr>inlineData = Some ''AAAAAAAA'', toolCall = None\<rparr>"

definition oddBytes :: liveServerMessage where
  "oddBytes = \<lparr>inlineData = Some ''AA=='', toolCall = None\<rparr>"

text \<open>
  A number is an integer (\<open>Number.isInteger\<close>), or a finite number with a fractional
  part. \<open>inBounds\<close> is the invariant of the pose index as the data model states it,
  \<open>0 <= index < len(poses)\<close>, in the comparisons of the language; \<open>wholeIndex\<close>
  says in addition that the index is a whole number, hence a position of the list.
\<close>

fun isInteger :: "jsnum \<Rightarrow> bool" where
  "isInteger (Fin r) = (of_int \<lfloor>r\<rfloor> = r)"
| "isInteger _ = False"

fun isFraction :: "jsnum \<Rightarrow> bool" where
  "isFraction (Fin r) = (of_int \<lfloor>r\<rfloor> \<noteq> r)"
| "isFraction _ = False"

definition inBounds :: "pose list \<Rightarrow> session \<Rightarrow> bool" where
  "inBounds ps s =
     (js_ge (currentPoseIndex s) (Fin 0) \<and> js_lt (currentPoseIndex s) (Fin (of_nat (length ps))))"

text \<open>
  The one tool the dispatcher knows, the number it reads from a call, and the events
  whose \<open>setPoseIndex\<close> calls carry no fractional index.
\<close>

definition isSetPoseIndex :: "functionCall \<Rightarrow> bool" where
  "isSetPoseIndex fc = (fc_name fc = ''setPoseIndex'')"

definition indexOfCall :: "(string \<Rightarrow> jsnum) \<Rightarrow> functionCall \<Rightarrow> jsnum" where
  "indexOfCall strnum fc = Number strnum (arg fc ''index'')"

fun noFraction :: "(string \<Rightarrow> jsnum) \<Rightarrow> event \<Rightarrow> bool" where
  "noFraction strnum (Message now msg) =
     (case toolCall msg of
        None \<Rightarrow> True
      | Some fcs \<Rightarrow> list_all (\<lambda>fc. \<not> (isSetPoseIndex fc \<and> isFraction (indexOfCall strnum fc))) fcs)"
| "noFraction strnum _ = True"

definition wholeIndex :: "pose list \<Rightarrow> session \<Rightarrow> bool" where
  "wholeIndex ps s = (\<exists>k < length ps. currentPoseIndex s = Fin (of_nat k))"

text \<open>
  Example inputs of the dispatcher: a sequence of three poses, a \<open>setPoseIndex\<close> call
  with a given identifier and index value, a call of another name, and a message that
  carries tool calls only.
\<close>

definition threePoses :: "pose list" where
  "threePoses =
     map (\<lambda>n. \<lparr>sanskrit_name = n, english_name = n, duration_seconds = Fin 30, instructions = [],
                modification = [], focus = [], imageUrl = None, videoUrl = None\<rparr>)
       [''Tadasana'', ''Balasana'', ''Savasana'']"

definition setPoseIndexCall :: "string \<Rightarrow> jsval \<Rightarrow> functionCall" where
  "setPoseIndexCall i v = \<lparr>fc_id = i, fc_name = ''setPoseIndex'', fc_args = [''index'' \<mapsto> v]\<rparr>"

definition otherCall :: "string \<Rightarrow> functionCall" where
  "otherCall i = \<lparr>fc_id = i, fc_name = ''getWeather'', fc_args = Map.empty\<rparr>"

definition toolMessage :: "functionCall list \<Rightarrow> liveServerMessage" where
  "toolMessage fcs = \<lparr>inlineData = None, toolCall = Some fcs\<rparr>"


text \<open>
  An event is decodable when it is no message with a payload that fails to decode. The
  invariant of the pending set: the speaking flag is true exactly when the set is not
  empty, the set holds no node twice, and every node in it has been made already (so the
  next node made is new to it).
\<close>

fun decodable :: "(string \<Rightarrow> nat list option) \<Rightarrow> event \<Rightarrow> bool" where
  "decodable atob (Message now msg) =
     (case inlineData msg of
        None \<Rightarrow> True
      | Some d \<Rightarrow> d = [] \<or> (case decodeInline atob d of Inl e \<Rightarrow> False | Inr b \<Rightarrow> True))"
| "decodable atob _ = True"

definition pendingInv :: "session \<Rightarrow> bool" where
  "pendingInv s =
     ((isSpeaking s \<longleftrightarrow> sourcesRef s \<noteq> []) \<and> distinct (sourcesRef s) \<and>
      (\<forall>x \<in> set (sourcesRef s). x < created s))"

text \<open>The number a string of decimal digits denotes.\<close>

definition decValue :: "string \<Rightarrow> nat" where
  "decValue ds = foldl (\<lambda>a c. 10 * a + (of_char c - 48)) 0 ds"

text \<open>An example sequence of two poses.\<close>

definition twoPoses :: yogaSequence where
  "twoPoses =
     \<lparr>sequence_title = ''Gentle back care'', total_duration_minutes = Fin 5,
      poses =
        [\<lparr>sanskrit_name = ''Balasana'', english_name = ''Child's Pose'', duration_seconds = Fin 60,
          instructions = ''Kneel and fold forward.'', modification = ''Place a bolster under the chest.'',
          focus = ''Lower back release'', imageUrl = None, videoUrl = None\<rparr>,
         \<lparr>sanskrit_name = ''Savasana'', english_name = ''Corpse Pose'', duration_seconds = Fin 120,
          instructions = ''Lie on the back.'', modification = ''Bend the knees over a cushion.'',
          focus = ''Rest'', imageUrl = None, videoUrl = None\<rparr>]\<rparr>"

section \<open>The playback scheduler\<close>

text \<open>The audio half of \<open>onMessage\<close>, by the three ways it can go.\<close>

lemma handleAudioOutput_eq:
  "handleAudioOutput atob now msg s =
     (case inlineData msg of
        None \<Rightarrow> (None, s)
      | Some d \<Rightarrow>
          if d = [] then (None, s)
          else (case decodeInline atob d of
                  Inl e \<Rightarrow> (Some e, s\<lparr>isSpeaking := True, nextStartTimeRef := max (nextStartTimeRef s) now\<rparr>)
                | Inr b \<Rightarrow>
                    (None, s\<lparr>isSpeaking := True,
                             nextStartTimeRef := max (nextStartTimeRef s) now + duration b,
                             created := Suc (created s),
                             started := started s @ [(created s, max (nextStartTimeRef s) now, duration b)],
                             sourcesRef := Set_add (created s) (sourcesRef s)\<rparr>)))"
  by (simp add: handleAudioOutput_def Let_def split: option.split sum.split)

lemma handleFunctionCall_frame:
  "isSpeaking (handleFunctionCall strnum ps fc s) = isSpeaking s \<and>
   nextStartTimeRef (handleFunctionCall strnum ps fc s) = nextStartTimeRef s \<and>
   sourcesRef (handleFunctionCall strnum ps fc s) = sourcesRef s \<and>
   created (handleFunctionCall strnum ps fc s) = created s \<and>
   started (handleFunctionCall strnum ps fc s) = started s"
  by (simp add: handleFunctionCall_def Let_def)

lemma forFunctionCalls_frame:
  "isSpeaking (forFunctionCalls strnum ps fcs s) = isSpeaking s \<and>
   nextStartTimeRef (forFunctionCalls strnum ps fcs s) = nextStartTimeRef s \<and>
   sourcesRef (forFunctionCalls strnum ps fcs s) = sourcesRef s \<and>
   created (forFunctionCalls strnum ps fcs s) = created s \<and>
   started (forFunctionCalls strnum ps fcs s) = started s"
  by (induction fcs arbitrary: s) (simp_all add: handleFunctionCall_frame)

lemma handleToolCalls_frame:
  "isSpeaking (handleToolCalls strnum ps msg s) = isSpeaking s \<and>
   nextStartTimeRef (handleToolCalls strnum ps msg s) = nextStartTimeRef s \<and>
   sourcesRef (handleToolCalls strnum ps msg s) = sourcesRef s \<and>
   created (handleToolCalls strnum ps msg s) = created s \<and>
   started (handleToolCalls strnum ps msg s) = started s"
  by (simp add: handleToolCalls_def forFunctionCalls_frame split: option.split)

lemma int16Array_length: "length (int16Array bs) = length bs div 2"
  by (induction bs rule: int16Array.induct) simp_all

lemma decodeAudioData_duration:
  "decodeAudioData bs rate = Inr b \<Longrightarrow> 0 < rate \<Longrightarrow> 0 < duration b"
  by (auto simp: decodeAudioData_def Let_def duration_def split: if_splits)

lemma decodeInline_duration: "decodeInline atob d = Inr b \<Longrightarrow> 0 < duration b"
  by (auto simp: decodeInline_def split: sum.splits dest: decodeAudioData_duration)

lemma int16Array_Nil: "even (length bs) \<Longrightarrow> int16Array bs = [] \<longleftrightarrow> bs = []"
  by (induction bs rule: int16Array.induct) simp_all

lemma decodeInline_Inl_iff:
  "(\<exists>e. decodeInline atob d = Inl e) \<longleftrightarrow>
     (case atob d of None \<Rightarrow> True | Some cs \<Rightarrow> odd (length cs) \<or> cs = [])"
  by (auto simp: decodeInline_def base64ToUint8Array_def decodeAudioData_def Let_def int16Array_Nil
      split: option.splits sum.splits if_splits)

text \<open>
  What \<open>onMessage\<close> does with a decodable payload, with an undecodable one, and without
  a payload.
\<close>

lemma onMessage_decoded:
  assumes "inlineData msg = Some d" and "d \<noteq> []" and "decodeInline atob d = Inr b"
  shows "started (snd (onMessage atob strnum ps now msg s)) =
           started s @ [(created s, max (nextStartTimeRef s) now, duration b)] \<and>
         nextStartTimeRef (snd (onMessage atob strnum ps now msg s)) =
           max (nextStartTimeRef s) now + duration b \<and>
         created (snd (onMessage atob strnum ps now msg s)) = Suc (created s) \<and>
         sourcesRef (snd (onMessage atob strnum ps now msg s)) = Set_add (created s) (sourcesRef s) \<and>
         isSpeaking (snd (onMessage atob strnum ps now msg s)) \<and>
         fst (onMessage atob strnum ps now msg s) = None"
  using assms by (simp add: onMessage_def handleAudioOutput_eq handleToolCalls_frame)

lemma onMessage_failed:
  assumes "inlineData msg = Some d" and "d \<noteq> []" and "decodeInline atob d = Inl e"
  shows "onMessage atob strnum ps now msg s =
           (Some e, s\<lparr>isSpeaking := True, nextStartTimeRef := max (nextStartTimeRef s) now\<rparr>)"
  using assms by (simp add: onMessage_def handleAudioOutput_eq)

lemma onMessage_silent:
  assumes "inlineData msg = None \<or> inlineData msg = Some []"
  shows "onMessage atob strnum ps now msg s = (None, handleToolCalls strnum ps msg s)"
  using assms by (auto simp: onMessage_def handleAudioOutput_eq)

lemma inOrder_snoc:
  assumes "inOrder cs" and "\<forall>c \<in> set cs. endOf c \<le> startOf x"
  shows "inOrder (cs @ [x])"
  unfolding inOrder_def
proof (intro allI impI)
  fix j i assume j: "j < length (cs @ [x])" and i: "i < j"
  show "endOf ((cs @ [x]) ! i) \<le> startOf ((cs @ [x]) ! j)"
  proof (cases "j < length cs")
    case True
    with i assms(1) show ?thesis by (simp add: inOrder_def nth_append)
  next
    case False
    with j have "j = length cs" by simp
    with i assms(2) show ?thesis by (simp add: nth_append)
  qed
qed

lemma onMessage_cases:
  obtains (silent) "inlineData msg = None \<or> inlineData msg = Some []"
  | (failed) d e where "inlineData msg = Some d" "d \<noteq> []" "decodeInline atob d = Inl e"
  | (decoded) d b where "inlineData msg = Some d" "d \<noteq> []" "decodeInline atob d = Inr b"
  by (cases "inlineData msg"; cases "decodeInline atob (the (inlineData msg))") auto

lemma scheduleInv_onMessage:
  assumes "scheduleInv s"
  shows "scheduleInv (snd (onMessage atob strnum ps now msg s))"
proof (cases rule: onMessage_cases [where msg = msg and atob = atob])
  case silent
  with assms show ?thesis
    by (simp add: onMessage_silent scheduleInv_def handleToolCalls_frame)
next
  case (failed d e)
  from assms have "\<forall>c \<in> set (started s). endOf c \<le> max (nextStartTimeRef s) now"
    by (auto simp: scheduleInv_def max_def)
  with assms failed show ?thesis
    by (simp add: onMessage_failed scheduleInv_def)
next
  case (decoded d b)
  let ?t = "max (nextStartTimeRef s) now"
  have pos: "0 < duration b" using decoded by (simp add: decodeInline_duration)
  from assms have prior: "\<forall>c \<in> set (started s). endOf c \<le> ?t"
    by (auto simp: scheduleInv_def max_def)
  then have "inOrder (started s @ [(created s, ?t, duration b)])"
    using assms by (intro inOrder_snoc) (simp_all add: scheduleInv_def startOf_def)
  moreover have "\<forall>c \<in> set (started s @ [(created s, ?t, duration b)]). endOf c \<le> ?t + duration b"
    using prior pos by (auto simp: endOf_def)
  ultimately show ?thesis
    using onMessage_decoded [OF decoded, of strnum ps now s] by (simp add: scheduleInv_def)
qed

lemma scheduleInv_step:
  "scheduleInv s \<Longrightarrow> scheduleInv (step atob strnum ps ev s)"
  by (cases ev)
    (simp_all add: scheduleInv_onMessage, simp_all add: scheduleInv_def onEnded_def Let_def clickPrev_def clickNext_def)

lemma scheduleInv_run:
  "scheduleInv s \<Longrightarrow> scheduleInv (run atob strnum ps evs s)"
  by (induction evs arbitrary: s) (simp_all add: scheduleInv_step)

lemma scheduleInv_initial: "scheduleInv initialSession"
  by (simp add: scheduleInv_def initialSession_def inOrder_def)

lemma atob_oneFrame: "browser_atob ''AAA='' = Some [0, 0]"
  by (simp add: browser_atob_def stripPadding_def b64Alphabet_def)

lemma atob_threeFrames: "browser_atob ''AAAAAAAA'' = Some [0, 0, 0, 0, 0, 0]"
  by (simp add: browser_atob_def stripPadding_def b64Alphabet_def)

lemma atob_oddBytes: "browser_atob ''AA=='' = Some [0]"
  by (simp add: browser_atob_def stripPadding_def b64Alphabet_def)

lemma decode_oneFrame:
  "decodeInline browser_atob ''AAA='' = Inr \<lparr>channelData = [0], sampleRate = 24000\<rparr>"
  by (simp add: decodeInline_def base64ToUint8Array_def atob_oneFrame decodeAudioData_def wrap16_def)

lemma decode_threeFrames:
  "decodeInline browser_atob ''AAAAAAAA'' = Inr \<lparr>channelData = [0, 0, 0], sampleRate = 24000\<rparr>"
  by (simp add: decodeInline_def base64ToUint8Array_def atob_threeFrames decodeAudioData_def wrap16_def)

lemma decode_oddBytes: "decodeInline browser_atob ''AA=='' = Inl RangeError"
  by (simp add: decodeInline_def base64ToUint8Array_def atob_oddBytes decodeAudioData_def)

lemma initialSession_fields:
  "currentPoseIndex initialSession = Fin 0" "isSpeaking initialSession = False"
  "nextStartTimeRef initialSession = 0" "sourcesRef initialSession = []"
  "created initialSession = 0" "started initialSession = []" "toolResponses initialSession = []"
  by (simp_all add: initialSession_def)

lemma onMessage_oneFrame:
  "snd (onMessage browser_atob (\<lambda>x. NaN) [] 0 oneFrame initialSession) =
     \<lparr>currentPoseIndex = Fin 0, isSpeaking = True, nextStartTimeRef = 1 / 24000, sourcesRef = [0],
      created = 1, started = [(0, 0, 1 / 24000)], toolResponses = []\<rparr>"
  by (simp add: oneFrame_def onMessage_def handleAudioOutput_eq decode_oneFrame handleToolCalls_def
      initialSession_def duration_def Set_add_def)

text \<open>
  Claim C1. Whatever has happened to the session before (any sequence of messages,
  decodable or not, playback completions and button clicks), a message with a decodable
  payload schedules its chunk at \<open>max nextStartTime now\<close>, \<open>now\<close> being the
  reading of the output clock; that start is not before the clock reading and not before
  the end of any chunk scheduled earlier; the chunk has a positive duration; and in the
  schedule as a whole every chunk ends before each later chunk starts, so no two playback
  intervals overlap.
\<close>

theorem playback_schedule:
  assumes "s = run atob strnum ps evs initialSession"
    and "inlineData msg = Some d" and "d \<noteq> []" and "decodeInline atob d = Inr b"
    and "s' = step atob strnum ps (Message now msg) s"
  shows "started s' = started s @ [(created s, max (nextStartTimeRef s) now, duration b)] \<and>
         0 < duration b \<and>
         now \<le> max (nextStartTimeRef s) now \<and>
         (\<forall>c \<in> set (started s). endOf c \<le> max (nextStartTimeRef s) now) \<and>
         (\<forall>j < length (started s'). \<forall>i < j. endOf (started s' ! i) \<le> startOf (started s' ! j))"
proof -
  have inv: "scheduleInv s"
    using assms(1) by (simp add: scheduleInv_run scheduleInv_initial)
  then have inv': "scheduleInv s'"
    using assms(5) by (simp add: scheduleInv_onMessage)
  have sched: "started s' = started s @ [(created s, max (nextStartTimeRef s) now, duration b)]"
    using onMessage_decoded [OF assms(2,3,4), of strnum ps now s] assms(5) by simp
  have prior: "\<forall>c \<in> set (started s). endOf c \<le> max (nextStartTimeRef s) now"
    using inv by (auto simp: scheduleInv_def max_def)
  have "\<forall>j < length (started s'). \<forall>i < j. endOf (started s' ! i) \<le> startOf (started s' ! j)"
    using inv' by (simp add: scheduleInv_def inOrder_def)
  with sched prior decodeInline_duration [OF assms(4)] show ?thesis by simp
qed

theorem playback_schedule_witness:
  "started (step browser_atob (\<lambda>x. NaN) [] (Message (1 / 48000) threeFrames)
      (run browser_atob (\<lambda>x. NaN) [] [Message 0 oneFrame] initialSession)) =
     [(0, 0, 1 / 24000), (1, 1 / 24000, 1 / 8000)]"
proof -
  have d: "inlineData threeFrames = Some ''AAAAAAAA''" and n: "''AAAAAAAA'' \<noteq> []"
    by (simp_all add: threeFrames_def)
  show ?thesis
    using playback_schedule [where atob = browser_atob and strnum = "\<lambda>x. NaN" and ps = "[]"
        and evs = "[Message 0 oneFrame]" and now = "1 / 48000" and msg = threeFrames,
        OF refl d n decode_threeFrames refl]
    by (simp add: onMessage_oneFrame duration_def)
qed

text \<open>
  Claim C8. Two decodable chunks, the second processed while the output clock has not
  passed the scheduled end of the first: \<open>nextStartTime\<close> is advanced by the first
  buffer's duration as soon as the first is scheduled, and the second starts exactly at
  the first one's start plus the first one's duration.
\<close>

theorem back_to_back_chunks:
  assumes "inlineData m = Some d" and "d \<noteq> []" and "decodeInline atob d = Inr b"
    and "inlineData m' = Some d'" and "d' \<noteq> []" and "decodeInline atob d' = Inr b'"
    and "s' = step atob strnum ps (Message now m) s"
    and "s'' = step atob strnum ps (Message now' m') s'"
    and "now' \<le> max (nextStartTimeRef s) now + duration b"
  shows "started s' = started s @ [(created s, max (nextStartTimeRef s) now, duration b)] \<and>
         nextStartTimeRef s' = max (nextStartTimeRef s) now + duration b \<and>
         started s'' = started s @
           [(created s, max (nextStartTimeRef s) now, duration b),
            (Suc (created s), max (nextStartTimeRef s) now + duration b, duration b')]"
proof -
  have one: "started s' = started s @ [(created s, max (nextStartTimeRef s) now, duration b)]"
    and next1: "nextStartTimeRef s' = max (nextStartTimeRef s) now + duration b"
    and made: "created s' = Suc (created s)"
    using onMessage_decoded [OF assms(1,2,3), of strnum ps now s] assms(7) by simp_all
  have "started s'' = started s' @ [(created s', max (nextStartTimeRef s') now', duration b')]"
    using onMessage_decoded [OF assms(4,5,6), of strnum ps now' s'] assms(8) by simp
  moreover have "max (nextStartTimeRef s') now' = max (nextStartTimeRef s) now + duration b"
    using next1 assms(9) by (simp add: max_def)
  ultimately show ?thesis using one next1 made by simp
qed

theorem back_to_back_chunks_witness:
  "started (step browser_atob (\<lambda>x. NaN) [] (Message (1 / 8000) oneFrame)
      (step browser_atob (\<lambda>x. NaN) [] (Message 0 threeFrames) initialSession)) =
     [(0, 0, 1 / 8000), (1, 0 + 1 / 8000, 1 / 24000)]"
proof -
  have d: "inlineData threeFrames = Some ''AAAAAAAA''" and n1: "''AAAAAAAA'' \<noteq> []"
    and d': "inlineData oneFrame = Some ''AAA=''" and n2: "''AAA='' \<noteq> []"
    by (simp_all add: threeFrames_def oneFrame_def)
  have gap: "(1 / 8000 :: rat) \<le> max (nextStartTimeRef initialSession) 0 +
      duration \<lparr>channelData = [0, 0, 0], sampleRate = 24000\<rparr>"
    by (simp add: initialSession_def duration_def)
  show ?thesis
    using back_to_back_chunks [where strnum = "\<lambda>x. NaN" and ps = "[]" and s = initialSession
        and now = 0 and now' = "1 / 8000", OF d n1 decode_threeFrames d' n2 decode_oneFrame refl refl gap]
    by (simp add: initialSession_def duration_def)
qed

text \<open>
  Claim C7. A message whose payload cannot be decoded (invalid base64, an odd number of
  bytes, no sample at all) ends \<open>onMessage\<close> with the exception as its result: nothing
  is scheduled for it, no node is made and the pending set is untouched, and
  \<open>nextStartTime\<close> has only been raised to the clock reading. A decodable chunk that
  follows (the output clock does not run backwards) is scheduled exactly as if the
  malformed one had never arrived, and \<open>nextStartTime\<close> advances past it by its
  duration.
\<close>

theorem malformed_chunk_dropped:
  assumes "inlineData m = Some d" and "d \<noteq> []" and "decodeInline atob d = Inl e"
    and "inlineData m' = Some d'" and "d' \<noteq> []" and "decodeInline atob d' = Inr b'"
    and "s' = step atob strnum ps (Message now m) s"
    and "s'' = step atob strnum ps (Message now' m') s'"
    and "now \<le> now'"
  shows "onMessage atob strnum ps now m s =
           (Some e, s\<lparr>isSpeaking := True, nextStartTimeRef := max (nextStartTimeRef s) now\<rparr>) \<and>
         started s' = started s \<and> sourcesRef s' = sourcesRef s \<and> created s' = created s \<and>
         nextStartTimeRef s' = max (nextStartTimeRef s) now \<and>
         started s'' = started s @ [(created s, max (nextStartTimeRef s) now', duration b')] \<and>
         nextStartTimeRef s'' = max (nextStartTimeRef s) now' + duration b' \<and>
         nextStartTimeRef s' < nextStartTimeRef s'' \<and>
         started s'' = started (step atob strnum ps (Message now' m') s) \<and>
         nextStartTimeRef s'' = nextStartTimeRef (step atob strnum ps (Message now' m') s)"
proof -
  have failed: "onMessage atob strnum ps now m s =
      (Some e, s\<lparr>isSpeaking := True, nextStartTimeRef := max (nextStartTimeRef s) now\<rparr>)"
    and s'_eq: "s' = s\<lparr>isSpeaking := True, nextStartTimeRef := max (nextStartTimeRef s) now\<rparr>"
    using onMessage_failed [OF assms(1,2,3), of strnum ps now s] assms(7) by simp_all
  have m: "max (max (nextStartTimeRef s) now) now' = max (nextStartTimeRef s) now'"
    using assms(9) by (simp add: max_def)
  have pos: "0 < duration b'" by (rule decodeInline_duration [OF assms(6)])
  have sched: "started s'' = started s @ [(created s, max (nextStartTimeRef s) now', duration b')]"
    and next2: "nextStartTimeRef s'' = max (nextStartTimeRef s) now' + duration b'"
    using onMessage_decoded [OF assms(4,5,6), of strnum ps now' s'] assms(8) s'_eq m by simp_all
  have direct: "started (step atob strnum ps (Message now' m') s) =
      started s @ [(created s, max (nextStartTimeRef s) now', duration b')]"
    "nextStartTimeRef (step atob strnum ps (Message now' m') s) = max (nextStartTimeRef s) now' + duration b'"
    using onMessage_decoded [OF assms(4,5,6), of strnum ps now' s] by simp_all
  have "nextStartTimeRef s' < nextStartTimeRef s''"
    using next2 s'_eq pos assms(9) by (simp add: max_def)
  with failed s'_eq sched next2 direct show ?thesis by simp
qed

theorem malformed_chunk_dropped_witness:
  "onMessage browser_atob (\<lambda>x. NaN) [] 0 oddBytes initialSession =
     (Some RangeError, initialSession\<lparr>isSpeaking := True, nextStartTimeRef := 0\<rparr>) \<and>
   started (step browser_atob (\<lambda>x. NaN) [] (Message 1 oneFrame)
      (step browser_atob (\<lambda>x. NaN) [] (Message 0 oddBytes) initialSession)) = [(0, 1, 1 / 24000)]"
proof -
  have d1: "inlineData oddBytes = Some ''AA==''" and n1: "''AA=='' \<noteq> []"
    and d2: "inlineData oneFrame = Some ''AAA=''" and n2: "''AAA='' \<noteq> []"
    by (simp_all add: oddBytes_def oneFrame_def)
  have le: "(0 :: rat) \<le> 1" by simp
  show ?thesis
    using malformed_chunk_dropped [where strnum = "\<lambda>x. NaN" and ps = "[]" and s = initialSession,
        OF d1 n1 decode_oddBytes d2 n2 decode_oneFrame refl refl le]
    by (simp add: initialSession_fields duration_def del: step.simps)
qed

section \<open>The tool-call dispatcher\<close>

text \<open>
  A call of another name leaves the state as it is, so the loop over the calls of a
  message does what it does on the \<open>setPoseIndex\<close> calls alone; each of those adds
  one response, under the call's identifier.
\<close>

lemma handleFunctionCall_other:
  "\<not> isSetPoseIndex fc \<Longrightarrow> handleFunctionCall strnum ps fc s = s"
  by (simp add: handleFunctionCall_def isSetPoseIndex_def)

lemma forFunctionCalls_filter:
  "forFunctionCalls strnum ps fcs s = forFunctionCalls strnum ps (filter isSetPoseIndex fcs) s"
  by (induction fcs arbitrary: s) (simp_all add: handleFunctionCall_other)

lemma handleFunctionCall_response:
  "isSetPoseIndex fc \<Longrightarrow>
     \<exists>r. toolResponses (handleFunctionCall strnum ps fc s) = toolResponses s @ [r] \<and>
         fr_id r = fc_id fc \<and> fr_name r = ''setPoseIndex''"
  by (simp add: handleFunctionCall_def isSetPoseIndex_def Let_def)

lemma forFunctionCalls_responses:
  "\<exists>rs. toolResponses (forFunctionCalls strnum ps fcs s) = toolResponses s @ rs \<and>
        map fr_id rs = map fc_id (filter isSetPoseIndex fcs) \<and>
        (\<forall>r \<in> set rs. fr_name r = ''setPoseIndex'')"
proof (induction fcs arbitrary: s)
  case Nil
  show ?case by simp
next
  case (Cons fc fcs)
  let ?s = "handleFunctionCall strnum ps fc s"
  from Cons.IH [of ?s] obtain rs where rs:
    "toolResponses (forFunctionCalls strnum ps fcs ?s) = toolResponses ?s @ rs"
    "map fr_id rs = map fc_id (filter isSetPoseIndex fcs)"
    "\<forall>r \<in> set rs. fr_name r = ''setPoseIndex''"
    by blast
  show ?case
  proof (cases "isSetPoseIndex fc")
    case True
    from handleFunctionCall_response [OF True, of strnum ps s] obtain r where r:
      "toolResponses ?s = toolResponses s @ [r]" "fr_id r = fc_id fc" "fr_name r = ''setPoseIndex''"
      by blast
    have "toolResponses (forFunctionCalls strnum ps (fc # fcs) s) = toolResponses s @ (r # rs)"
      using rs(1) r(1) by simp
    moreover have "map fr_id (r # rs) = map fc_id (filter isSetPoseIndex (fc # fcs))"
      using rs(2) r(2) True by simp
    moreover have "\<forall>x \<in> set (r # rs). fr_name x = ''setPoseIndex''"
      using rs(3) r(3) by simp
    ultimately show ?thesis by blast
  next
    case False
    then have "?s = s" by (rule handleFunctionCall_other)
    with rs False show ?thesis by auto
  qed
qed

text \<open>
  Claim C10. In a tool-call message, a function call whose name is not
  \<open>setPoseIndex\<close> is ignored: handling it returns the session unchanged (no response,
  same pose index); the message as a whole has the effect of its \<open>setPoseIndex\<close> calls
  alone; the responses it adds are exactly one per \<open>setPoseIndex\<close> call, in order,
  each under that call's identifier and the name \<open>setPoseIndex\<close>; and a message with no
  \<open>setPoseIndex\<close> call at all leaves the responses sent and the pose index as they were.
\<close>

theorem other_tool_calls_ignored:
  assumes "toolCall msg = Some fcs"
  shows "(\<forall>fc \<in> set fcs. \<not> isSetPoseIndex fc \<longrightarrow> handleFunctionCall strnum ps fc s = s) \<and>
         handleToolCalls strnum ps msg s = forFunctionCalls strnum ps (filter isSetPoseIndex fcs) s \<and>
         (\<exists>rs. toolResponses (handleToolCalls strnum ps msg s) = toolResponses s @ rs \<and>
               map fr_id rs = map fc_id (filter isSetPoseIndex fcs) \<and>
               (\<forall>r \<in> set rs. fr_name r = ''setPoseIndex'')) \<and>
         ((\<forall>fc \<in> set fcs. \<not> isSetPoseIndex fc) \<longrightarrow>
            handleToolCalls strnum ps msg s = s \<and>
            toolResponses (snd (onMessage atob strnum ps now msg s)) = toolResponses s \<and>
            currentPoseIndex (snd (onMessage atob strnum ps now msg s)) = currentPoseIndex s)"
proof -
  have filt: "handleToolCalls strnum ps msg s = forFunctionCalls strnum ps (filter isSetPoseIndex fcs) s"
    using assms forFunctionCalls_filter [of strnum ps fcs s] by (simp add: handleToolCalls_def)
  have resp: "\<exists>rs. toolResponses (handleToolCalls strnum ps msg s) = toolResponses s @ rs \<and>
               map fr_id rs = map fc_id (filter isSetPoseIndex fcs) \<and>
               (\<forall>r \<in> set rs. fr_name r = ''setPoseIndex'')"
    using assms forFunctionCalls_responses [of strnum ps fcs s] by (simp add: handleToolCalls_def)
  have none: "handleToolCalls strnum ps msg s' = s'" if "\<forall>fc \<in> set fcs. \<not> isSetPoseIndex fc" for s'
  proof -
    from that have "filter isSetPoseIndex fcs = []" by (simp add: filter_empty_conv)
    then show ?thesis
      using assms forFunctionCalls_filter [of strnum ps fcs s'] by (simp add: handleToolCalls_def)
  qed
  have msgs: "toolResponses (snd (onMessage atob strnum ps now msg s)) = toolResponses s \<and>
      currentPoseIndex (snd (onMessage atob strnum ps now msg s)) = currentPoseIndex s"
    if "\<forall>fc \<in> set fcs. \<not> isSetPoseIndex fc"
    using none [OF that]
    by (simp add: onMessage_def handleAudioOutput_eq split: option.split sum.split)
  from filt resp none msgs show ?thesis
    by (simp add: handleFunctionCall_other)
qed

lemma example_calls:
  "\<not> isSetPoseIndex (otherCall i)" "isSetPoseIndex (setPoseIndexCall i v)"
  "indexOfCall strnum (setPoseIndexCall i (VNumber n)) = n"
  "fc_id (setPoseIndexCall i v) = i" "fc_id (otherCall i) = i"
  "toolCall (toolMessage fcs) = Some fcs" "inlineData (toolMessage fcs) = None"
  "length threePoses = 3"
  by (simp_all add: isSetPoseIndex_def otherCall_def setPoseIndexCall_def indexOfCall_def arg_def
      toolMessage_def threePoses_def)

theorem other_tool_calls_ignored_witness:
  "handleToolCalls (\<lambda>x. NaN) threePoses
      (toolMessage [otherCall ''a'', setPoseIndexCall ''b'' (VNumber (Fin 1)), otherCall ''c'']) initialSession =
     forFunctionCalls (\<lambda>x. NaN) threePoses [setPoseIndexCall ''b'' (VNumber (Fin 1))] initialSession \<and>
   toolResponses (snd (onMessage browser_atob (\<lambda>x. NaN) threePoses 0
      (toolMessage [otherCall ''a'', otherCall ''c'']) initialSession)) = []"
proof -
  have a: "toolCall (toolMessage [otherCall ''a'', setPoseIndexCall ''b'' (VNumber (Fin 1)), otherCall ''c'']) =
      Some [otherCall ''a'', setPoseIndexCall ''b'' (VNumber (Fin 1)), otherCall ''c'']"
    and b: "toolCall (toolMessage [otherCall ''a'', otherCall ''c'']) = Some [otherCall ''a'', otherCall ''c'']"
    by (simp_all add: example_calls)
  show ?thesis
    using other_tool_calls_ignored [OF a, of "\<lambda>x. NaN" threePoses initialSession]
      other_tool_calls_ignored [OF b, of "\<lambda>x. NaN" threePoses initialSession browser_atob 0]
    by (simp add: example_calls initialSession_fields)
qed

text \<open>Supporting facts on the dispatcher.\<close>

lemma setPoseIndex_accepts_whole_index:
  assumes "isSetPoseIndex fc" and "indexOfCall strnum fc = Fin (of_nat i)" and "i < length ps"
  shows "handleFunctionCall strnum ps fc s =
           s\<lparr>currentPoseIndex := Fin (of_nat i),
             toolResponses := toolResponses s @
               [\<lparr>fr_id = fc_id fc, fr_name = ''setPoseIndex'', fr_result = ''OK, pose updated.''\<rparr>]\<rparr>"
  using assms
  by (simp add: handleFunctionCall_def isSetPoseIndex_def indexOfCall_def Let_def isNaN_def js_ge_def)

lemma setPoseIndex_rejects:
  assumes "isSetPoseIndex fc"
    and "isNaN (indexOfCall strnum fc) \<or> js_lt (indexOfCall strnum fc) (Fin 0) \<or>
         js_ge (indexOfCall strnum fc) (Fin (of_nat (length ps)))"
  shows "handleFunctionCall strnum ps fc s =
           s\<lparr>toolResponses := toolResponses s @
               [\<lparr>fr_id = fc_id fc, fr_name = ''setPoseIndex'',
                 fr_result = ''Error: Pose index out of bounds.''\<rparr>]\<rparr>"
  using assms
  by (auto simp: handleFunctionCall_def isSetPoseIndex_def indexOfCall_def Let_def js_ge_def)

text \<open>
  Claim C2 asks for a failure response, and an unchanged pose index, for every index that
  is not an integer of the range. The dispatcher checks that the index is a number of the
  range and never that it is whole: with three poses, \<open>setPoseIndex({index: 1.5})\<close>
  is answered "OK, pose updated." and the pose index becomes 1.5, which is no position of
  the sequence.
\<close>

theorem fractional_index_accepted:
  "handleToolCalls strnum threePoses (toolMessage [setPoseIndexCall ''call-1'' (VNumber (Fin (3 / 2)))])
      initialSession =
     initialSession\<lparr>currentPoseIndex := Fin (3 / 2),
       toolResponses := [\<lparr>fr_id = ''call-1'', fr_name = ''setPoseIndex'', fr_result = ''OK, pose updated.''\<rparr>]\<rparr>"
  by (simp add: handleToolCalls_def toolMessage_def handleFunctionCall_def setPoseIndexCall_def arg_def
      threePoses_def isNaN_def js_ge_def initialSession_def)

text \<open>
  \<open>Number(null)\<close> is 0, so an index of \<open>null\<close> is taken for pose 0.
\<close>

lemma null_index_accepted:
  "handleToolCalls strnum threePoses (toolMessage [setPoseIndexCall ''call-1'' VNull]) 
      (initialSession\<lparr>currentPoseIndex := Fin 2\<rparr>) =
     initialSession\<lparr>currentPoseIndex := Fin 0,
       toolResponses := [\<lparr>fr_id = ''call-1'', fr_name = ''setPoseIndex'', fr_result = ''OK, pose updated.''\<rparr>]\<rparr>"
  by (simp add: handleToolCalls_def toolMessage_def handleFunctionCall_def setPoseIndexCall_def arg_def
      threePoses_def isNaN_def js_ge_def initialSession_def)

text \<open>
  The tool calls of a message whose audio payload fails to decode are never reached: they
  get no response and change nothing.
\<close>

lemma tool_calls_unanswered_after_decode_failure:
  assumes "inlineData msg = Some d" and "d \<noteq> []" and "decodeInline atob d = Inl e"
  shows "toolResponses (snd (onMessage atob strnum ps now msg s)) = toolResponses s \<and>
         currentPoseIndex (snd (onMessage atob strnum ps now msg s)) = currentPoseIndex s"
  using onMessage_failed [OF assms, of strnum ps now s] by simp

section \<open>The pose index\<close>

lemma accepted_whole:
  assumes "\<not> isNaN n" and "js_ge n (Fin 0)" and "js_lt n (Fin (of_nat m))" and "\<not> isFraction n"
  shows "\<exists>k < m. n = Fin (of_nat k)"
proof (cases n)
  case (Fin r)
  with assms have r: "0 \<le> r" "r < of_nat m" "of_int \<lfloor>r\<rfloor> = r"
    by (simp_all add: js_ge_def isNaN_def)
  define k where "k = nat \<lfloor>r\<rfloor>"
  from r(1) have "0 \<le> \<lfloor>r\<rfloor>" by simp
  then have kr: "(of_nat k :: rat) = r" using r(3) by (simp add: k_def)
  with r(2) have "k < m" by simp
  with kr Fin show ?thesis by auto
qed (use assms in \<open>simp_all add: js_ge_def isNaN_def\<close>)

lemma wholeIndex_inBounds: "wholeIndex ps s \<Longrightarrow> inBounds ps s \<and> isInteger (currentPoseIndex s)"
  by (auto simp: wholeIndex_def inBounds_def js_ge_def isNaN_def)

lemma wholeIndex_clickPrev: "wholeIndex ps s \<Longrightarrow> wholeIndex ps (clickPrev s)"
proof -
  assume "wholeIndex ps s"
  then obtain k where k: "k < length ps" "currentPoseIndex s = Fin (of_nat k)"
    by (auto simp: wholeIndex_def)
  show ?thesis
  proof (cases "k = 0")
    case True
    with k show ?thesis by (simp add: clickPrev_def js_eq_def isNaN_def wholeIndex_def)
  next
    case False
    then have "(of_nat k :: rat) - 1 = of_nat (k - 1)" by (simp add: of_nat_diff)
    then have "currentPoseIndex (clickPrev s) = Fin (of_nat (k - 1))"
      using k False by (simp add: clickPrev_def js_eq_def isNaN_def js_sub_def Math_max_def)
    with k show ?thesis by (auto simp: wholeIndex_def intro!: exI [of _ "k - 1"])
  qed
qed

lemma wholeIndex_clickNext: "wholeIndex ps s \<Longrightarrow> wholeIndex ps (clickNext ps s)"
proof -
  assume whole: "wholeIndex ps s"
  then obtain k where k: "k < length ps" "currentPoseIndex s = Fin (of_nat k)"
    by (auto simp: wholeIndex_def)
  define m where "m = length ps - 1"
  from k(1) have last: "lastIndex ps = Fin (of_nat m)"
    by (simp add: lastIndex_def m_def of_nat_diff)
  from k(1) have km: "k \<le> m" and m: "m < length ps" by (simp_all add: m_def)
  show ?thesis
  proof (cases "k = m")
    case True
    with k last have "clickNext ps s = s" by (simp add: clickNext_def js_eq_def isNaN_def)
    with whole show ?thesis by simp
  next
    case False
    with km have lt: "Suc k \<le> m" by simp
    then have le: "(of_nat k :: rat) + 1 \<le> of_nat m"
      by (metis of_nat_Suc of_nat_le_iff add.commute)
    have ne: "(of_nat k :: rat) \<noteq> of_nat m" using False by simp
    have "currentPoseIndex (clickNext ps s) = Fin (of_nat k + 1)"
      using k(2) last le ne by (auto simp: clickNext_def js_eq_def isNaN_def Math_min_def)
    then have "currentPoseIndex (clickNext ps s) = Fin (of_nat (Suc k))" by simp
    moreover from lt m have "Suc k < length ps" by simp
    ultimately show ?thesis unfolding wholeIndex_def by blast
  qed
qed

lemma wholeIndex_handleFunctionCall:
  assumes "wholeIndex ps s" and "\<not> (isSetPoseIndex fc \<and> isFraction (indexOfCall strnum fc))"
  shows "wholeIndex ps (handleFunctionCall strnum ps fc s)"
proof (cases "isSetPoseIndex fc")
  case False
  with assms(1) show ?thesis by (simp add: handleFunctionCall_other)
next
  case True
  let ?n = "indexOfCall strnum fc"
  show ?thesis
  proof (cases "\<not> isNaN ?n \<and> js_ge ?n (Fin 0) \<and> js_lt ?n (Fin (of_nat (length ps)))")
    case accepted: True
    with assms(2) True obtain k where "k < length ps" "?n = Fin (of_nat k)"
      using accepted_whole [of ?n "length ps"] by auto
    with True show ?thesis
      by (simp add: setPoseIndex_accepts_whole_index wholeIndex_def)
  next
    case False
    then have "currentPoseIndex (handleFunctionCall strnum ps fc s) = currentPoseIndex s"
      by (auto simp: handleFunctionCall_def indexOfCall_def Let_def)
    with assms(1) show ?thesis by (simp add: wholeIndex_def)
  qed
qed

lemma wholeIndex_forFunctionCalls:
  assumes "wholeIndex ps s"
    and "list_all (\<lambda>fc. \<not> (isSetPoseIndex fc \<and> isFraction (indexOfCall strnum fc))) fcs"
  shows "wholeIndex ps (forFunctionCalls strnum ps fcs s)"
  using assms by (induction fcs arbitrary: s) (simp_all add: wholeIndex_handleFunctionCall)

lemma handleAudioOutput_index:
  "currentPoseIndex (snd (handleAudioOutput atob now msg s)) = currentPoseIndex s \<and>
   toolResponses (snd (handleAudioOutput atob now msg s)) = toolResponses s"
  by (simp add: handleAudioOutput_eq split: option.split sum.split)

lemma wholeIndex_step:
  assumes "wholeIndex ps s" and "noFraction strnum ev"
  shows "wholeIndex ps (step atob strnum ps ev s)"
proof (cases ev)
  case (Message now msg)
  have audio: "wholeIndex ps (snd (handleAudioOutput atob now msg s))"
    using assms(1) handleAudioOutput_index [of atob now msg s] by (simp add: wholeIndex_def)
  have "wholeIndex ps (handleToolCalls strnum ps msg (snd (handleAudioOutput atob now msg s)))"
    using audio assms(2) Message
    by (auto simp: handleToolCalls_def wholeIndex_forFunctionCalls split: option.splits)
  with audio Message show ?thesis
    by (cases "handleAudioOutput atob now msg s") (auto simp: onMessage_def split: option.split)
next
  case (Ended source)
  with assms(1) show ?thesis by (simp add: onEnded_def Let_def wholeIndex_def)
next
  case ClickPrev
  with assms(1) show ?thesis by (simp add: wholeIndex_clickPrev)
next
  case ClickNext
  with assms(1) show ?thesis by (simp add: wholeIndex_clickNext)
qed

lemma wholeIndex_run:
  assumes "wholeIndex ps s" and "\<forall>ev \<in> set evs. noFraction strnum ev"
  shows "wholeIndex ps (run atob strnum ps evs s)"
  using assms by (induction evs arbitrary: s) (simp_all add: wholeIndex_step)


text \<open>Over an empty pose list the Next button is enabled, and a click takes the index to -1.\<close>

lemma next_on_empty_sequence: "currentPoseIndex (clickNext [] initialSession) = Fin (- 1)"
  by (simp add: clickNext_def lastIndex_def initialSession_def js_eq_def isNaN_def Math_min_def)

text \<open>
  Without a fractional index among the \<open>setPoseIndex\<close> calls, the index is moreover
  a whole number, hence a position of the list.
\<close>

lemma pose_index_whole_without_fractions:
  assumes "ps \<noteq> []" and "\<forall>ev \<in> set evs. noFraction strnum ev"
    and "s = run atob strnum ps evs initialSession"
  shows "isInteger (currentPoseIndex s) \<and> (\<exists>k < length ps. currentPoseIndex s = Fin (of_nat k))"
proof -
  from assms(1) have "wholeIndex ps initialSession"
    by (simp add: wholeIndex_def initialSession_def)
  then have "wholeIndex ps s"
    using assms(2,3) by (simp add: wholeIndex_run)
  then show ?thesis
    using wholeIndex_inBounds [of ps s] by (simp add: wholeIndex_def)
qed











section \<open>The speaking flag and the pending set\<close>

lemma pendingInv_onMessage:
  assumes "pendingInv s" and "decodable atob (Message now msg)"
  shows "pendingInv (snd (onMessage atob strnum ps now msg s))"
proof (cases rule: onMessage_cases [where msg = msg and atob = atob])
  case silent
  with assms(1) show ?thesis
    by (simp add: onMessage_silent pendingInv_def handleToolCalls_frame)
next
  case (failed d e)
  with assms(2) show ?thesis by simp
next
  case (decoded d b)
  have fresh: "created s \<notin> set (sourcesRef s)"
    using assms(1) by (auto simp: pendingInv_def)
  show ?thesis
    using onMessage_decoded [OF decoded, of strnum ps now s] assms(1) fresh
    by (auto simp: pendingInv_def Set_add_def less_Suc_eq)
qed

lemma pendingInv_onEnded: "pendingInv s \<Longrightarrow> pendingInv (onEnded source s)"
  by (auto simp: pendingInv_def onEnded_def Let_def Set_delete_def Set_size_def distinct_removeAll)

lemma pendingInv_step:
  "pendingInv s \<Longrightarrow> decodable atob ev \<Longrightarrow> pendingInv (step atob strnum ps ev s)"
proof (cases ev)
  case (Message now msg)
  assume "pendingInv s" "decodable atob ev"
  with Message show ?thesis using pendingInv_onMessage [of s atob now msg strnum ps] by simp
next
  case (Ended source)
  assume "pendingInv s"
  with Ended show ?thesis by (simp add: pendingInv_onEnded)
next
  case ClickPrev
  assume "pendingInv s"
  with ClickPrev show ?thesis by (simp add: pendingInv_def clickPrev_def)
next
  case ClickNext
  assume "pendingInv s"
  with ClickNext show ?thesis by (simp add: pendingInv_def clickNext_def)
qed

text \<open>
  As long as every payload decodes, the flag follows the pending set, whatever the order
  of arrivals and completions, and every node the scheduler adds to the set is new to it.
\<close>

lemma speaking_iff_pending_while_decodable:
  assumes "\<forall>ev \<in> set evs. decodable atob ev" and "pendingInv s"
  shows "pendingInv (run atob strnum ps evs s)"
  using assms by (induction evs arbitrary: s) (simp_all add: pendingInv_step)

lemma pendingInv_initial: "pendingInv initialSession"
  by (simp add: pendingInv_def initialSession_def)

text \<open>
  Claim C4 states that the speaking flag is true exactly when the pending set is not
  empty, at every observation point. \<open>onMessage\<close> sets the flag before it decodes
  the payload, and adds the node to the set after: a payload that fails to decode (here a
  single byte, which is no 16-bit sample) leaves the flag true over an empty set, and no
  \<open>ended\<close> event is due that would reset it.
\<close>

theorem speaking_without_pending_source:
  "isSpeaking (snd (onMessage browser_atob strnum ps now oddBytes initialSession)) \<and>
   sourcesRef (snd (onMessage browser_atob strnum ps now oddBytes initialSession)) = [] \<and>
   fst (onMessage browser_atob strnum ps now oddBytes initialSession) = Some RangeError"
proof -
  have "inlineData oddBytes = Some ''AA==''" and "''AA=='' \<noteq> []"
    by (simp_all add: oddBytes_def)
  from onMessage_failed [OF this decode_oddBytes, of strnum ps now initialSession]
  show ?thesis by (simp add: initialSession_fields)
qed

section \<open>The audio encoder\<close>

text \<open>
  A sample of \<open>[-1, 1)\<close> is scaled by 32768 and truncated, and the result is a signed
  16-bit integer as it stands.
\<close>

lemma wrap16_id: "- 32768 \<le> n \<Longrightarrow> n < 32768 \<Longrightarrow> wrap16 n = n"
proof -
  assume a: "- 32768 \<le> n" "n < 32768"
  show ?thesis
  proof (cases "0 \<le> n")
    case True
    with a have "n mod 65536 = n" by simp
    with a show ?thesis by (simp add: wrap16_def)
  next
    case False
    with a have "(n + 65536) mod 65536 = n + 65536" by (intro mod_pos_pos_trivial) simp_all
    then have "n mod 65536 = n + 65536" by simp
    with False a show ?thesis by (simp add: wrap16_def Let_def)
  qed
qed

lemma trunc_bounds:
  assumes "- 1 \<le> x" and "x < 1"
  shows "- 32768 \<le> trunc (x * 32768) \<and> trunc (x * 32768) < 32768"
proof -
  have lo: "- 32768 \<le> x * 32768" and hi: "x * 32768 < 32768" using assms by simp_all
  have "(- 32768 :: int) \<le> \<lfloor>x * 32768\<rfloor>" using lo by (simp add: le_floor_iff)
  moreover have "\<lfloor>x * 32768\<rfloor> < 32768" using hi by (simp add: floor_less_iff)
  moreover have "(- 32768 :: int) \<le> \<lceil>x * 32768\<rceil>" using lo by (simp add: le_ceiling_iff)
  moreover have "x * 32768 < 0 \<Longrightarrow> \<lceil>x * 32768\<rceil> < 32768"
    by (simp add: ceiling_less_iff)
  ultimately show ?thesis by (simp add: trunc_def)
qed

lemma in_range_sample_scaled:
  assumes "- 1 \<le> x" and "x < 1"
  shows "ToInt16 (x * 32768) = trunc (x * 32768) \<and>
         - 32768 \<le> ToInt16 (x * 32768) \<and> ToInt16 (x * 32768) \<le> 32767"
  using trunc_bounds [OF assms] by (simp add: ToInt16_def wrap16_id)

lemma pcmInt16_length: "length (pcmInt16 samples) = length samples"
  by (simp add: pcmInt16_def)

text \<open>
  Claim C5 states that every sample of \<open>[-1.0, 1.0]\<close> is scaled linearly into
  \<open>[-32768, 32767]\<close>. The factor is 32768 and nothing clamps the product: the sample
  1.0 gives 32768, which the \<open>Int16Array\<close> stores as -32768, the two bytes 0x00 0x80.
  Positive full scale is sent as negative full scale.
\<close>

theorem full_scale_sample_wraps:
  "pcmInt16 [1] = [- 32768] \<and>
   createPcmBlob btoa [1] = \<lparr>blob_data = btoa [0, 128], blob_mimeType = ''audio/pcm;rate=16000''\<rparr>"
  by (simp add: createPcmBlob_def pcmInt16_def ToInt16_def trunc_def wrap16_def int16Bytes_def)

section \<open>Release of the resources\<close>

text \<open>
  Claim C6 states that teardown closes both audio contexts. \<open>handleStartSession\<close>
  makes the 16 kHz input context (here object 0) and the 24 kHz output context (object 1)
  and stores the output context alone in \<open>audioContextRef\<close>; \<open>cleanup\<close> closes what
  that ref holds. After camera and microphone were granted (tracks 10 and 11), the
  session was started and opened, and the component unmounted, the calls made are the
  list below: both tracks stopped, the timer cleared, the processor disconnected, context
  1 closed, and no \<open>Close 0\<close>.
\<close>

theorem input_context_never_closed:
  "handleStartSession (initCamera (Some [10, 11]) initialComponent) =
     (0, initialComponent\<lparr>isSessionActive := True, status := ''Connecting to AI...'',
           streamRef := Some [10, 11], audioContextRef := Some 1, objects := 2,
           effects := [NewAudioContext 0 16000, NewAudioContext 1 24000, Resume 0, Resume 1]\<rparr>) \<and>
   effects (cleanup (onOpen 0 (snd (handleStartSession (initCamera (Some [10, 11]) initialComponent))))) =
     [NewAudioContext 0 16000, NewAudioContext 1 24000, Resume 0, Resume 1,
      CreateScriptProcessor 2 0, SetInterval 3 500,
      TrackStop 10, TrackStop 11, Close 1, ClearInterval 3, Disconnect 2]"
  by (simp add: handleStartSession_def startSessionEnter_def startSessionInputResumed_def
      startSessionOutputResumed_def initCamera_def initialComponent_def onOpen_def cleanup_def Let_def)

text \<open>
  \<open>cleanup\<close> clears no ref, so a second call would repeat every release of the first;
  and no ref ever holds the input context.
\<close>

lemma cleanup_twice_repeats_the_releases:
  "effects (cleanup (cleanup c)) =
     effects (cleanup c) @ drop (length (effects c)) (effects (cleanup c))"
  by (simp add: cleanup_def)

lemma input_context_is_held_by_no_ref:
  "audioContextRef (snd (handleStartSession c)) = Some (Suc (fst (handleStartSession c))) \<and>
   audioContextRef (onOpen i c) = audioContextRef c"
  by (simp add: handleStartSession_def startSessionEnter_def startSessionInputResumed_def
      startSessionOutputResumed_def onOpen_def Let_def split: option.split)

text \<open>
  An unmount while \<open>handleStartSession\<close> is suspended at its first \<open>await\<close> finds
  \<open>audioContextRef\<close> still empty: \<open>cleanup\<close> stops the tracks and closes neither
  context, and the rest of the function then resumes the output context and stores it in
  the ref of the unmounted component.
\<close>

lemma unmount_while_starting_closes_no_context:
  "effects (startSessionOutputResumed 1 (startSessionInputResumed 1
      (cleanup (snd (startSessionEnter (initCamera (Some [10, 11]) initialComponent)))))) =
     [NewAudioContext 0 16000, NewAudioContext 1 24000, Resume 0, TrackStop 10, TrackStop 11, Resume 1]"
  by (simp add: startSessionEnter_def startSessionInputResumed_def startSessionOutputResumed_def
      initCamera_def initialComponent_def cleanup_def Let_def)

section \<open>The connect handshake\<close>

text \<open>\<open>dec\<close> writes a number in decimal digits: reading them gives the number back.\<close>

lemma digit_value: "d < 10 \<Longrightarrow> (of_char (''0123456789'' ! d) :: nat) = 48 + d"
proof -
  assume "d < 10"
  then have "d \<in> {0, 1, 2, 3, 4, 5, 6, 7, 8, 9}" by auto
  then show ?thesis by (auto simp: nth_Cons')
qed

lemma decValue_snoc: "decValue (ds @ [c]) = 10 * decValue ds + (of_char c - 48)"
  by (simp add: decValue_def)

lemma decValue_dec: "decValue (dec n) = n"
proof (induction n rule: dec.induct)
  case (1 n)
  show ?case
  proof (cases "n < 10")
    case True
    then show ?thesis by (simp add: decValue_def digit_value)
  next
    case False
    have d: "n mod 10 < 10" by simp
    from False have "dec n = dec (n div 10) @ [''0123456789'' ! (n mod 10)]"
      by (subst dec.simps) simp
    then have "decValue (dec n) = 10 * decValue (dec (n div 10)) + n mod 10"
      by (simp only: decValue_snoc digit_value [OF d])
    with False "1.IH" show ?thesis by simp
  qed
qed

lemma dec_inj: "dec m = dec n \<Longrightarrow> m = n"
  by (metis decValue_dec)

lemma poseLines_length: "length (poseLines ps) = length ps"
  by (simp add: poseLines_def)

lemma poseLines_nth:
  "i < length ps \<Longrightarrow>
     poseLines ps ! i = dec i @ ''. '' @ english_name (ps ! i) @ ''. Mod: '' @ modification (ps ! i)"
  by (simp add: poseLines_def poseLine_def nth_enumerate_eq del: dec.simps)

lemma dec_small: "n < 10 \<Longrightarrow> dec n = [''0123456789'' ! n]"
  by simp

text \<open>
  \<open>join\<close> puts the separator between the lines and nowhere else: followed by one more
  separator, the joined text is every line followed by the separator, in order. The lines
  of the plan are one per pose, in order. \<open>dec\<close> writes digits only and no leading
  zero.
\<close>

lemma join_concat:
  "ls \<noteq> [] \<Longrightarrow> join sep ls @ sep = concat (map (\<lambda>l. l @ sep) ls)"
  by (induction sep ls rule: join.induct) simp_all

lemma join_Nil: "join sep [] = []"
  by simp

lemma poseLines_map:
  "poseLines ps =
     map (\<lambda>i. dec i @ ''. '' @ english_name (ps ! i) @ ''. Mod: '' @ modification (ps ! i))
       [0..<length ps]"
  by (rule nth_equalityI) (simp_all add: poseLines_length poseLines_nth del: dec.simps)

lemma digit_in: "d < 10 \<Longrightarrow> ''0123456789'' ! d \<in> set ''0123456789''"
  by (rule nth_mem) simp

lemma dec_digits: "set (dec n) \<subseteq> set ''0123456789''"
proof (induction n rule: dec.induct)
  case (1 n)
  show ?case
  proof (cases "n < 10")
    case True
    then have "dec n = [''0123456789'' ! n]" by (subst dec.simps) simp
    with digit_in [OF True] show ?thesis by simp
  next
    case False
    have d: "n mod 10 < 10" by simp
    from False have "dec n = dec (n div 10) @ [''0123456789'' ! (n mod 10)]"
      by (subst dec.simps) simp
    with "1.IH" False digit_in [OF d] show ?thesis by simp
  qed
qed

lemma dec_not_Nil: "dec n \<noteq> []"
  by (subst dec.simps) simp

lemma digit_zero: "d < 10 \<Longrightarrow> ''0123456789'' ! d = CHR ''0'' \<Longrightarrow> d = 0"
proof -
  assume "d < 10" and z: "''0123456789'' ! d = CHR ''0''"
  then have "d \<in> {0, 1, 2, 3, 4, 5, 6, 7, 8, 9}" by auto
  with z show ?thesis by (auto simp: nth_Cons')
qed

lemma dec_no_leading_zero: "n \<noteq> 0 \<Longrightarrow> hd (dec n) \<noteq> CHR ''0''"
proof (induction n rule: dec.induct)
  case (1 n)
  show ?case
  proof (cases "n < 10")
    case True
    then have "dec n = [''0123456789'' ! n]" by (subst dec.simps) simp
    with True "1.prems" digit_zero [of n] show ?thesis by auto
  next
    case False
    then have nz: "n div 10 \<noteq> 0" by simp
    from False have "dec n = dec (n div 10) @ [''0123456789'' ! (n mod 10)]"
      by (subst dec.simps) simp
    then have "hd (dec n) = hd (dec (n div 10))"
      by (simp add: dec_not_Nil del: dec.simps)
    with "1.IH" [OF False nz] show ?thesis by simp
  qed
qed

lemma promptHead_end:
  "\<exists>h. promptHead = h @ ''Sequence Plan:'' @ [CHR 0x0A] @ ''    ''"
  by (simp add: promptHead_def newline_def)

text \<open>
  Claim C9. With an API key set, \<open>connectToYogaSession\<close> hands \<open>ai.live.connect\<close>
  a request that asks for audio as the only response modality and declares one tool with
  one function, \<open>setPoseIndex\<close>, whose parameters are the single required property
  \<open>index\<close> of type INTEGER. Its system instruction is the fixed head of the template,
  the plan, and the fixed tail. The plan is empty for a sequence without poses; otherwise
  the plan followed by a line feed is, for \<open>i\<close> from 0 to the last position in this
  order, the text \<open>i. english name. Mod: modification\<close> of pose \<open>i\<close> followed by a
  line feed: every pose, once, in the order of the sequence. The index \<open>i\<close> is written
  in decimal digits, without a leading zero.
\<close>

theorem connect_handshake:
  assumes "apiKey = Some k" and "k \<noteq> []"
  shows "\<exists>request body. connectToYogaSession apiKey sequence = Inr request \<and>
           responseModalities (config request) = [AUDIO] \<and>
           tools (config request) = [\<lparr>functionDeclarations = [setPoseIndexTool]\<rparr>] \<and>
           fd_name setPoseIndexTool = ''setPoseIndex'' \<and>
           map fst (s_properties (fd_parameters setPoseIndexTool)) = [''index''] \<and>
           map (p_type \<circ> snd) (s_properties (fd_parameters setPoseIndexTool)) = [INTEGER] \<and>
           s_required (fd_parameters setPoseIndexTool) = [''index''] \<and>
           systemInstruction (config request) = promptHead @ body @ promptTail \<and>
           (if poses sequence = [] then body = []
            else body @ [CHR 0x0A] =
              concat (map (\<lambda>i. dec i @ ''. '' @ english_name (poses sequence ! i) @ ''. Mod: '' @
                                 modification (poses sequence ! i) @ [CHR 0x0A])
                        [0..<length (poses sequence)])) \<and>
           (\<forall>i < length (poses sequence).
              decValue (dec i) = i \<and> set (dec i) \<subseteq> set ''0123456789'' \<and>
              (i = 0 \<or> hd (dec i) \<noteq> CHR ''0''))"
proof -
  let ?ps = "poses sequence"
  let ?body = "join newline (poseLines ?ps)"
  have body: "if ?ps = [] then ?body = []
      else ?body @ [CHR 0x0A] =
        concat (map (\<lambda>i. dec i @ ''. '' @ english_name (?ps ! i) @ ''. Mod: '' @
                           modification (?ps ! i) @ [CHR 0x0A]) [0..<length ?ps])"
  proof (cases "?ps = []")
    case True
    then show ?thesis by (simp add: poseLines_def)
  next
    case False
    then have "poseLines ?ps \<noteq> []"
      using poseLines_length [of ?ps] by (metis length_0_conv)
    from join_concat [OF this, of newline] False show ?thesis
      by (simp add: poseLines_map newline_def comp_def del: dec.simps)
  qed
  have digits: "\<forall>i < length ?ps. decValue (dec i) = i \<and> set (dec i) \<subseteq> set ''0123456789'' \<and>
      (i = 0 \<or> hd (dec i) \<noteq> CHR ''0'')"
    using decValue_dec dec_digits dec_no_leading_zero by blast
  have "connectToYogaSession apiKey sequence =
      Inr \<lparr>model = ''gemini-2.5-flash-native-audio-preview-09-2025'',
           config = \<lparr>responseModalities = [AUDIO], systemInstruction = promptHead @ ?body @ promptTail,
                     tools = [\<lparr>functionDeclarations = [setPoseIndexTool]\<rparr>], voiceName = ''Zephyr''\<rparr>\<rparr>"
    using assms by (simp add: connectToYogaSession_def systemPrompt_def)
  moreover have "fd_name setPoseIndexTool = ''setPoseIndex'' \<and>
      map fst (s_properties (fd_parameters setPoseIndexTool)) = [''index''] \<and>
      map (p_type \<circ> snd) (s_properties (fd_parameters setPoseIndexTool)) = [INTEGER] \<and>
      s_required (fd_parameters setPoseIndexTool) = [''index'']"
    by (simp add: setPoseIndexTool_def)
  ultimately show ?thesis
    using body digits
    by (intro exI [of _ "\<lparr>model = ''gemini-2.5-flash-native-audio-preview-09-2025'',
           config = \<lparr>responseModalities = [AUDIO], systemInstruction = promptHead @ ?body @ promptTail,
                     tools = [\<lparr>functionDeclarations = [setPoseIndexTool]\<rparr>], voiceName = ''Zephyr''\<rparr>\<rparr>"]
        exI [of _ ?body]) (simp del: dec.simps)
qed

theorem connect_handshake_witness:
  "(\<exists>request. connectToYogaSession (Some ''key'') twoPoses = Inr request \<and>
      responseModalities (config request) = [AUDIO] \<and>
      tools (config request) = [\<lparr>functionDeclarations = [setPoseIndexTool]\<rparr>] \<and>
      systemInstruction (config request) =
        promptHead @
        ''0. Child's Pose. Mod: Place a bolster under the chest.'' @ [CHR 0x0A] @
        ''1. Corpse Pose. Mod: Bend the knees over a cushion.'' @
        promptTail)"
proof -
  have k: "''key'' \<noteq> []" by simp
  from connect_handshake [OF refl k, of twoPoses] obtain request body where r:
    "connectToYogaSession (Some ''key'') twoPoses = Inr request"
    "responseModalities (config request) = [AUDIO]"
    "tools (config request) = [\<lparr>functionDeclarations = [setPoseIndexTool]\<rparr>]"
    "systemInstruction (config request) = promptHead @ body @ promptTail"
    and b: "if poses twoPoses = [] then body = []
       else body @ [CHR 0x0A] =
         concat (map (\<lambda>i. dec i @ ''. '' @ english_name (poses twoPoses ! i) @ ''. Mod: '' @
                            modification (poses twoPoses ! i) @ [CHR 0x0A])
                   [0..<length (poses twoPoses)])"
    by blast
  have "[0..<length (poses twoPoses)] = [0, 1]"
    by (simp add: twoPoses_def upt_rec)
  with b have "body @ [CHR 0x0A] =
      (''0. Child's Pose. Mod: Place a bolster under the chest.'' @ [CHR 0x0A] @
       ''1. Corpse Pose. Mod: Bend the knees over a cushion.'') @ [CHR 0x0A]"
    by (simp add: twoPoses_def)
  then have "body = ''0. Child's Pose. Mod: Place a bolster under the chest.'' @ [CHR 0x0A] @
       ''1. Corpse Pose. Mod: Bend the knees over a cushion.''"
    by (simp only: append_same_eq)
  with r show ?thesis by simp
qed

end
